theory Spec2Isabelle
  imports Main "HOL-Library.Sublist"
begin

section \<open>Regular expressions as the source uses them\<close>

text \<open>
  The two route patterns of \<^verbatim>\<open>index.ts\<close> are built with \<^verbatim>\<open>new RegExp(...)\<close>, without
  flags and without anchors, and are applied with \<^verbatim>\<open>String.prototype.match\<close>
  (\<^verbatim>\<open>parsed.path.match(TREE_PATTERN)\<close>).  The abstract syntax below covers the operators
  that occur in them.  The matcher follows the backtracking semantics of ECMAScript:
  a pattern is a function of the current state (rest of the input, captures so far) and
  a continuation; alternatives are tried left to right and quantifiers are greedy.
\<close>

datatype regex =
    Lit string
  | Dot
  | Seq regex regex
  | Alt regex regex
  | Star regex
  | Opt regex
  | Group nat regex

type_synonym captures = "nat \<Rightarrow> string option"

type_synonym mstate = "string \<times> captures"

text \<open>
  \<^verbatim>\<open>.\<close> matches every character but a line terminator.  Strings are byte strings here, so
  of the four ECMAScript line terminators only LF and CR are representable.
\<close>

definition is_line_terminator :: "char \<Rightarrow> bool" where
  "is_line_terminator c = (c = CHR 0x0A \<or> c = CHR 0x0D)"

text \<open>
  The guard \<open>length (fst y) < length (fst x)\<close> of the two quantifiers is the empty check of
  ECMAScript's RepeatMatcher: an iteration that consumes nothing is rejected.  No group of
  the two patterns stands under a \<^verbatim>\<open>*\<close>, so the reset of captures at each iteration is
  left out.
\<close>

fun matcher :: "regex \<Rightarrow> mstate \<Rightarrow> (mstate \<Rightarrow> mstate option) \<Rightarrow> mstate option" where
  "matcher (Lit s) x k =
     (if prefix s (fst x) then k (drop (length s) (fst x), snd x) else None)"
| "matcher Dot x k =
     (case fst x of
        [] \<Rightarrow> None
      | c # rest \<Rightarrow> if is_line_terminator c then None else k (rest, snd x))"
| "matcher (Seq a b) x k = matcher a x (\<lambda>y. matcher b y k)"
| "matcher (Alt a b) x k =
     (case matcher a x k of Some r \<Rightarrow> Some r | None \<Rightarrow> matcher b x k)"
| "matcher (Star a) x k =
     (case matcher a x
             (\<lambda>y. if length (fst y) < length (fst x) then matcher (Star a) y k else None) of
        Some r \<Rightarrow> Some r
      | None \<Rightarrow> k x)"
| "matcher (Opt a) x k =
     (case matcher a x (\<lambda>y. if length (fst y) < length (fst x) then k y else None) of
        Some r \<Rightarrow> Some r
      | None \<Rightarrow> k x)"
| "matcher (Group n a) x k =
     matcher a x
       (\<lambda>y. k (fst y, (snd y)(n \<mapsto> take (length (fst x) - length (fst y)) (fst x))))"

text \<open>
  A match that starts at the head of \<open>s\<close>.  The result is the match array of JavaScript:
  index 0 holds the matched text, index \<open>n\<close> the text of group \<open>n\<close> (\<open>None\<close> is
  \<^verbatim>\<open>undefined\<close>).
\<close>

definition match_at :: "regex \<Rightarrow> string \<Rightarrow> captures option" where
  "match_at r s =
     (case matcher r (s, Map.empty) Some of
        None \<Rightarrow> None
      | Some y \<Rightarrow> Some ((snd y)(0 \<mapsto> take (length s - length (fst y)) s)))"

text \<open>\<^verbatim>\<open>RegExp.prototype.exec\<close> without flags: the leftmost start position that matches.\<close>

fun regex_exec :: "regex \<Rightarrow> string \<Rightarrow> captures option" where
  "regex_exec r [] = match_at r []"
| "regex_exec r (c # cs) =
     (case match_at r (c # cs) of Some m \<Rightarrow> Some m | None \<Rightarrow> regex_exec r cs)"

text \<open>\<^verbatim>\<open>s.match(r)\<close> for a regular expression without the global flag; \<open>None\<close> is \<^verbatim>\<open>null\<close>.\<close>

definition string_match :: "string \<Rightarrow> regex \<Rightarrow> captures option" where
  "string_match s r = regex_exec r s"

definition matches :: "string \<Rightarrow> regex \<Rightarrow> bool" where
  "matches s r = (case string_match s r of None \<Rightarrow> False | Some m \<Rightarrow> True)"

text \<open>
  An element of the match array when the array may be \<^verbatim>\<open>null\<close>, as in
  \<^verbatim>\<open>const [, , path] = parsed.path.match(TREE_PATTERN) ?? []\<close>.
\<close>

definition match_group :: "nat \<Rightarrow> captures option \<Rightarrow> string option" where
  "match_group n found = (case found of None \<Rightarrow> None | Some m \<Rightarrow> m n)"

text \<open>\<^verbatim>\<open>const TREE_PATTERN = new RegExp('/(notebooks|edit)/(.*)')\<close>\<close>

definition TREE_PATTERN :: regex where
  "TREE_PATTERN =
     Seq (Lit ''/'')
       (Seq (Group 1 (Alt (Lit ''notebooks'') (Lit ''edit'')))
         (Seq (Lit ''/'') (Group 2 (Star Dot))))"

text \<open>\<^verbatim>\<open>const treePattern = new RegExp('/(/tree/.*)?')\<close>\<close>

definition treePattern :: regex where
  "treePattern = Seq (Lit ''/'') (Opt (Group 1 (Seq (Lit ''/tree/'') (Star Dot))))"

section \<open>Promises and the page configuration\<close>

datatype js_error = URIError

datatype 'a promise = Pending | Fulfilled 'a | Rejected js_error

text \<open>
  \<^verbatim>\<open>new Promise(executor)\<close>: the promise is settled by the first call the executor makes to
  \<^verbatim>\<open>resolve\<close> or \<^verbatim>\<open>reject\<close>, and stays pending when it makes none.
\<close>

datatype 'a settlement = Resolve 'a | Reject js_error

definition new_Promise :: "'a settlement list \<Rightarrow> 'a promise" where
  "new_Promise calls =
     (case calls of
        [] \<Rightarrow> Pending
      | Resolve v # rest \<Rightarrow> Fulfilled v
      | Reject e # rest \<Rightarrow> Rejected e)"

text \<open>
  \<^verbatim>\<open>await p\<close> as the last statement of an async function: the function's own promise
  fulfills (with \<^verbatim>\<open>undefined\<close>) once \<open>p\<close> fulfills, rejects when \<open>p\<close> rejects, and stays
  pending while \<open>p\<close> is pending.
\<close>

definition await_then_return :: "'a promise \<Rightarrow> unit promise" where
  "await_then_return p =
     (case p of Pending \<Rightarrow> Pending | Fulfilled v \<Rightarrow> Fulfilled () | Rejected e \<Rightarrow> Rejected e)"

text \<open>
  \<^verbatim>\<open>PageConfig\<close> is a key/value store of strings; \<^verbatim>\<open>getOption\<close> of a key that was never set
  is the empty string.
\<close>

type_synonym page_config = "string \<rightharpoonup> string"

definition getOption :: "page_config \<Rightarrow> string \<Rightarrow> string" where
  "getOption cfg name = (case cfg name of None \<Rightarrow> [] | Some v \<Rightarrow> v)"

definition setOption :: "string \<Rightarrow> string \<Rightarrow> page_config \<Rightarrow> page_config" where
  "setOption name v cfg = cfg(name \<mapsto> v)"

text \<open>\<^verbatim>\<open>a || ''\<close> on a value that is a string or \<^verbatim>\<open>undefined\<close>.\<close>

definition or_empty :: "string option \<Rightarrow> string" where
  "or_empty v = (case v of None \<Rightarrow> [] | Some s \<Rightarrow> if s = [] then [] else s)"

record location =
  path :: string
  search :: "string option"

section \<open>The opener plugin\<close>

definition NOTEBOOK_FACTORY :: string where
  "NOTEBOOK_FACTORY = ''Notebook''"

definition EDITOR_FACTORY :: string where
  "EDITOR_FACTORY = ''Editor''"

text \<open>One call \<^verbatim>\<open>docManager.open(file, factory, undefined, { ref })\<close>.\<close>

record open_call =
  open_file :: string
  open_factory :: string
  open_ref :: string

text \<open>
  The executor handed to \<^verbatim>\<open>new Promise\<close> in the command \<^verbatim>\<open>router:tree\<close>.  It takes no
  \<^verbatim>\<open>resolve\<close> and no \<^verbatim>\<open>reject\<close>, so the list of its settlement calls is empty.  For a
  notebook it first awaits \<^verbatim>\<open>settingRegistry?.load(...)\<close>; \<open>settingRegistry\<close> is \<open>None\<close>
  when the optional registry is absent, and otherwise gives the state the promise of
  \<^verbatim>\<open>load\<close> ends in.  The document is opened only when that promise fulfills.
\<close>

definition opener_executor ::
  "(string \<Rightarrow> unit promise) option \<Rightarrow> string \<Rightarrow> string \<Rightarrow> open_call list \<times> unit settlement list"
where
  "opener_executor settingRegistry file ext =
     (if ext = ''.ipynb'' then
        (case (case settingRegistry of
                 None \<Rightarrow> Fulfilled ()
               | Some load \<Rightarrow> load ''@jupyterlab/notebook-extension:panel'') of
           Fulfilled u \<Rightarrow>
             ([\<lparr>open_file = file, open_factory = NOTEBOOK_FACTORY, open_ref = ''_noref''\<rparr>], [])
         | Pending \<Rightarrow> ([], [])
         | Rejected e \<Rightarrow> ([], []))
      else ([\<lparr>open_file = file, open_factory = EDITOR_FACTORY, open_ref = ''_noref''\<rparr>], []))"

text \<open>
  The \<^verbatim>\<open>execute\<close> function of \<^verbatim>\<open>router:tree\<close>: the documents it opens and the final state
  of the promise it returns.  \<^verbatim>\<open>decodeURIComponent\<close> (\<open>None\<close> when it throws a URIError)
  and \<^verbatim>\<open>PathExt.extname\<close> are library functions and are parameters here.
\<close>

definition opener_execute ::
  "(string \<Rightarrow> string option) \<Rightarrow> (string \<Rightarrow> string) \<Rightarrow> (string \<Rightarrow> unit promise) option \<Rightarrow>
     location \<Rightarrow> open_call list \<times> unit promise"
where
  "opener_execute decodeURIComponent extname settingRegistry parsed =
     (case match_group 2 (string_match (path parsed) TREE_PATTERN) of
        None \<Rightarrow> ([], Fulfilled ())
      | Some p \<Rightarrow>
          if p = [] then ([], Fulfilled ())
          else
            (case decodeURIComponent p of
               None \<Rightarrow> ([], Rejected URIError)
             | Some file \<Rightarrow>
                 (case opener_executor settingRegistry file (extname file) of
                    (opened, calls) \<Rightarrow> (opened, await_then_return (new_Promise calls)))))"

section \<open>The tree resolver plugin\<close>

text \<open>\<^verbatim>\<open>JupyterFrontEnd.ITreeResolver.Paths\<close> with its fields \<^verbatim>\<open>browser\<close> and \<^verbatim>\<open>file\<close>; the promise holds \<open>None\<close> for \<^verbatim>\<open>null\<close>.\<close>

record paths =
  paths_browser :: string
  paths_file :: string

text \<open>
  The state the closure of \<^verbatim>\<open>activate\<close> holds: the \<^verbatim>\<open>DisposableSet\<close> with its three
  members (the command, the pattern registration, the connection of the listener) and the
  \<^verbatim>\<open>PromiseDelegate\<close>.  \<open>disposals\<close> and \<open>resolveCalls\<close> count how often the members were
  disposed and how often \<^verbatim>\<open>delegate.resolve\<close> was called.
\<close>

record tree_resolver =
  isDisposed :: bool
  disposals :: nat
  commandRegistered :: bool
  patternRegistered :: bool
  listenerConnected :: bool
  delegate :: "paths option promise"
  resolveCalls :: nat

definition tree_activate :: tree_resolver where
  "tree_activate =
     \<lparr>isDisposed = False, disposals = 0, commandRegistered = True, patternRegistered = True,
      listenerConnected = True, delegate = Pending, resolveCalls = 0\<rparr>"

text \<open>\<^verbatim>\<open>DisposableSet.dispose\<close>: nothing when already disposed, else every member is disposed.\<close>

definition set_dispose :: "tree_resolver \<Rightarrow> tree_resolver" where
  "set_dispose t =
     (if isDisposed t then t
      else t\<lparr>isDisposed := True, disposals := Suc (disposals t), commandRegistered := False,
             patternRegistered := False, listenerConnected := False\<rparr>)"

text \<open>\<^verbatim>\<open>PromiseDelegate.resolve\<close>: only the first call settles the promise.\<close>

definition delegate_resolve :: "paths option \<Rightarrow> tree_resolver \<Rightarrow> tree_resolver" where
  "delegate_resolve v t =
     t\<lparr>delegate := (case delegate t of Pending \<Rightarrow> Fulfilled v | Fulfilled w \<Rightarrow> Fulfilled w
                     | Rejected e \<Rightarrow> Rejected e),
       resolveCalls := Suc (resolveCalls t)\<rparr>"

text \<open>
  \<^verbatim>\<open>URLExt.queryStringToObject\<close> is a library function and a parameter of the model.  It
  decodes every value with \<^verbatim>\<open>decodeURIComponent\<close> and so throws a URIError on a malformed
  escape: the result is \<open>None\<close> when it throws.
\<close>

type_synonym query_parser = "string \<Rightarrow> (string \<rightharpoonup> string) option"

text \<open>
  The \<^verbatim>\<open>execute\<close> function of \<^verbatim>\<open>application:resolve-tree\<close>.  The query string is parsed
  (line 855) before \<^verbatim>\<open>set.dispose()\<close> (line 862) and \<^verbatim>\<open>delegate.resolve\<close> (line 864), outside
  any \<^verbatim>\<open>try\<close>: when the parser throws, the promise of \<^verbatim>\<open>execute\<close> rejects and the resolver
  is left as it was.
\<close>

definition resolveTree_execute ::
  "query_parser \<Rightarrow> page_config \<Rightarrow> location \<Rightarrow> tree_resolver \<Rightarrow> tree_resolver"
where
  "resolveTree_execute queryStringToObject cfg args t =
     (if isDisposed t then t
      else
        (case queryStringToObject (case search args of None \<Rightarrow> [] | Some s \<Rightarrow> s) of
           None \<Rightarrow> t
         | Some query \<Rightarrow>
             (let b = or_empty (query ''file-browser-path'')
              in delegate_resolve
                   (Some \<lparr>paths_browser = b, paths_file = getOption cfg ''treePath''\<rparr>)
                   (set_dispose t))))"

text \<open>The listener connected to \<^verbatim>\<open>router.routed\<close>.\<close>

definition listener :: "tree_resolver \<Rightarrow> tree_resolver" where
  "listener t = (if isDisposed t then t else delegate_resolve None (set_dispose t))"

text \<open>
  The two entry points of the resolver as events.  \<open>tree_deliver\<close> hands an event to its
  handler whether or not the handler is still registered, which is the situation the
  \<^verbatim>\<open>isDisposed\<close> checks are there for.
\<close>

datatype tree_event = ResolveTreeExecuted location | RoutedEmitted

definition tree_deliver ::
  "query_parser \<Rightarrow> page_config \<Rightarrow> tree_resolver \<Rightarrow> tree_event \<Rightarrow> tree_resolver"
where
  "tree_deliver queryStringToObject cfg t ev =
     (case ev of
        ResolveTreeExecuted args \<Rightarrow> resolveTree_execute queryStringToObject cfg args t
      | RoutedEmitted \<Rightarrow> listener t)"

definition tree_run ::
  "query_parser \<Rightarrow> page_config \<Rightarrow> tree_event list \<Rightarrow> tree_resolver"
where
  "tree_run queryStringToObject cfg evs =
     foldl (tree_deliver queryStringToObject cfg) tree_activate evs"

text \<open>
  What each of the two conditions stands for, in the words of the specification: the command
  gives the \<^verbatim>\<open>file-browser-path\<close> of the query (empty when absent) with the stored tree
  path, the listener gives \<^verbatim>\<open>null\<close> (\<open>Some None\<close>).  A run of the command whose query
  string does not parse is broken off and gives nothing (\<open>None\<close>).
\<close>

definition condition_outcome ::
  "query_parser \<Rightarrow> page_config \<Rightarrow> tree_event \<Rightarrow> paths option option"
where
  "condition_outcome queryStringToObject cfg ev =
     (case ev of
        ResolveTreeExecuted args \<Rightarrow>
          (case queryStringToObject (case search args of None \<Rightarrow> [] | Some s \<Rightarrow> s) of
             None \<Rightarrow> None
           | Some query \<Rightarrow>
               Some (Some \<lparr>paths_browser =
                             (case query ''file-browser-path'' of None \<Rightarrow> [] | Some v \<Rightarrow> v),
                           paths_file = (case cfg ''treePath'' of None \<Rightarrow> [] | Some v \<Rightarrow> v)\<rparr>))
      | RoutedEmitted \<Rightarrow> Some None)"

text \<open>The outcome of the first event of a sequence that gives one.\<close>

fun first_outcome :: "query_parser \<Rightarrow> page_config \<Rightarrow> tree_event list \<Rightarrow> paths option option" where
  "first_outcome queryStringToObject cfg [] = None"
| "first_outcome queryStringToObject cfg (ev # evs) =
     (case condition_outcome queryStringToObject cfg ev of
        Some v \<Rightarrow> Some v
      | None \<Rightarrow> first_outcome queryStringToObject cfg evs)"

text \<open>The resolver once it has resolved with \<open>v\<close>.\<close>

definition resolved_with :: "paths option \<Rightarrow> tree_resolver" where
  "resolved_with v =
     \<lparr>isDisposed = True, disposals = 1, commandRegistered = False, patternRegistered = False,
      listenerConnected = False, delegate = Fulfilled v, resolveCalls = 1\<rparr>"

section \<open>The router\<close>

definition resolveTree :: string where
  "resolveTree = ''application:resolve-tree''"

definition router_tree :: string where
  "router_tree = ''router:tree''"

text \<open>An argument of \<^verbatim>\<open>router.register\<close>.\<close>

record rule =
  rule_pattern :: regex
  rule_command :: string

text \<open>\<^verbatim>\<open>router.register({ command, pattern: TREE_PATTERN })\<close> of the opener plugin.\<close>

definition opener_rule :: rule where
  "opener_rule = \<lparr>rule_pattern = TREE_PATTERN, rule_command = router_tree\<rparr>"

text \<open>\<^verbatim>\<open>router.register({ command: CommandIDs.resolveTree, pattern: treePattern })\<close>.\<close>

definition tree_rule :: rule where
  "tree_rule = \<lparr>rule_pattern = treePattern, rule_command = resolveTree\<rparr>"

text \<open>
  Modelled from the spec: the \<^verbatim>\<open>Router\<close> class (imported from \<^verbatim>\<open>@jupyterlab/application\<close>, not
  among the sources).  \<^verbatim>\<open>route()\<close> evaluates the current path against all registered
  patterns in registration order and executes the action of the first match with the
  location; a path that matches no pattern executes nothing.  In both cases the routed
  notification is then emitted to all subscribers.
\<close>

definition router_match :: "rule list \<Rightarrow> location \<Rightarrow> string option" where
  "router_match rules loc =
     (case find (\<lambda>r. matches (path loc) (rule_pattern r)) rules of
        None \<Rightarrow> None
      | Some r \<Rightarrow> Some (rule_command r))"

text \<open>
  The rules in force: those registered before the resolver's, the resolver's own while its
  registration is not disposed, and those registered after it.
\<close>

definition registered_rules :: "rule list \<Rightarrow> rule list \<Rightarrow> tree_resolver \<Rightarrow> rule list" where
  "registered_rules before after t =
     before @ (if patternRegistered t then [tree_rule] else []) @ after"

text \<open>
  One \<^verbatim>\<open>route()\<close> as the resolver sees it: the matched command runs if it is the resolver's
  and still registered (every other command leaves the resolver alone), then the routed
  signal reaches the listener if it is still connected.
\<close>

definition route ::
  "query_parser \<Rightarrow> page_config \<Rightarrow> rule list \<Rightarrow> rule list \<Rightarrow> location \<Rightarrow>
     tree_resolver \<Rightarrow> tree_resolver"
where
  "route queryStringToObject cfg before after loc t =
     (let t1 = (case router_match (registered_rules before after t) loc of
                  None \<Rightarrow> t
                | Some c \<Rightarrow>
                    if c = resolveTree \<and> commandRegistered t
                    then resolveTree_execute queryStringToObject cfg loc t
                    else t)
      in if listenerConnected t1 then listener t1 else t1)"

section \<open>The tree path updater plugin\<close>

text \<open>
  The browser-side state the updater writes: the page configuration, the calls of
  \<^verbatim>\<open>router.navigate\<close> (the URL and the \<^verbatim>\<open>skipRouting\<close> option) and the calls of
  \<^verbatim>\<open>PageConfig.setOption\<close> (the key and the value), each in the order made.
\<close>

record browser_state =
  pageConfig :: page_config
  navigations :: "(string \<times> bool) list"
  configWrites :: "(string \<times> string) list"

text \<open>
  Modelled from the spec: \<^verbatim>\<open>Router.navigate\<close> (of \<^verbatim>\<open>@jupyterlab/application\<close>, not among the
  sources).  With \<^verbatim>\<open>skipRouting\<close> it updates the history without dispatching; the
  model records the mutation.
\<close>

definition router_navigate :: "string \<Rightarrow> bool \<Rightarrow> browser_state \<Rightarrow> browser_state" where
  "router_navigate url skipRouting s = s\<lparr>navigations := navigations s @ [(url, skipRouting)]\<rparr>"

definition PageConfig_setOption :: "string \<Rightarrow> string \<Rightarrow> browser_state \<Rightarrow> browser_state" where
  "PageConfig_setOption name v s =
     s\<lparr>pageConfig := setOption name v (pageConfig s), configWrites := configWrites s @ [(name, v)]\<rparr>"

text \<open>\<^verbatim>\<open>PageConfig.getOption('baseUrl') || '/'\<close>\<close>

definition baseUrl_or_root :: "page_config \<Rightarrow> string" where
  "baseUrl_or_root cfg = (if getOption cfg ''baseUrl'' = [] then ''/'' else getOption cfg ''baseUrl'')"

text \<open>
  \<^verbatim>\<open>updateTreePath\<close>.  \<^verbatim>\<open>URLExt.join\<close> and \<^verbatim>\<open>URLExt.encodeParts\<close> are library functions and
  are parameters.
\<close>

definition updateTreePath ::
  "(string list \<Rightarrow> string) \<Rightarrow> (string \<Rightarrow> string) \<Rightarrow> string \<Rightarrow> browser_state \<Rightarrow> browser_state"
where
  "updateTreePath join encodeParts treePath s =
     (if treePath \<noteq> getOption (pageConfig s) ''treePath'' then
        (let url = join [baseUrl_or_root (pageConfig s), ''tree'', encodeParts treePath]
         in PageConfig_setOption ''treePath'' treePath (router_navigate url True s))
      else s)"

section \<open>The notebook shell\<close>

text \<open>\<^verbatim>\<open>SideBarPanel.Area\<close>, the type \<^verbatim>\<open>'left' | 'right'\<close>.\<close>

datatype area = Left | Right

definition area_name :: "area \<Rightarrow> string" where
  "area_name a = (case a of Left \<Rightarrow> ''left'' | Right \<Rightarrow> ''right'')"

text \<open>Of a widget the plugin reads \<^verbatim>\<open>widget.id\<close> and \<^verbatim>\<open>widget.title.caption\<close>.\<close>

record widget =
  widget_id :: string
  widget_caption :: string

text \<open>
  Modelled from the spec: the sidebar state of \<^verbatim>\<open>NotebookShell\<close> and its \<^verbatim>\<open>SideBarHandler\<close>
  (package \<^verbatim>\<open>@jupyter-notebook/application\<close>, not among the sources).  Per side: whether
  it is collapsed, the id of the current widget (kept while the side is collapsed) and the
  ordered sequence of registered panel widgets.  The shell also knows the active widget of
  the main area; \<open>activations\<close> lists the ids handed to \<^verbatim>\<open>activateById\<close>.
\<close>

record side_bar =
  collapsed :: bool
  currentWidgetId :: "string option"
  panels :: "widget list"

record shell =
  leftHandler :: side_bar
  rightHandler :: side_bar
  currentWidget :: "string option"
  activations :: "string list"

text \<open>Modelled from the spec: expanding a side expands it and activates the widget \<open>i\<close>.\<close>

definition side_expand :: "string \<Rightarrow> side_bar \<Rightarrow> side_bar" where
  "side_expand i sb = sb\<lparr>collapsed := False, currentWidgetId := Some i\<rparr>"

text \<open>
  Modelled from the spec: collapsing a side; the side may remember which widget was last
  active.
\<close>

definition side_collapse :: "side_bar \<Rightarrow> side_bar" where
  "side_collapse sb = sb\<lparr>collapsed := True\<rparr>"

definition leftCollapsed :: "shell \<Rightarrow> bool" where
  "leftCollapsed sh = collapsed (leftHandler sh)"

definition rightCollapsed :: "shell \<Rightarrow> bool" where
  "rightCollapsed sh = collapsed (rightHandler sh)"

definition expandLeft :: "string \<Rightarrow> shell \<Rightarrow> shell" where
  "expandLeft i sh = sh\<lparr>leftHandler := side_expand i (leftHandler sh)\<rparr>"

definition expandRight :: "string \<Rightarrow> shell \<Rightarrow> shell" where
  "expandRight i sh = sh\<lparr>rightHandler := side_expand i (rightHandler sh)\<rparr>"

definition collapseLeft :: "shell \<Rightarrow> shell" where
  "collapseLeft sh = sh\<lparr>leftHandler := side_collapse (leftHandler sh)\<rparr>"

definition collapseRight :: "shell \<Rightarrow> shell" where
  "collapseRight sh = sh\<lparr>rightHandler := side_collapse (rightHandler sh)\<rparr>"

text \<open>
  Modelled from the spec: \<^verbatim>\<open>activateById\<close> on the id of the active main-area document
  restores the keyboard focus to it; the model records the call.
\<close>

definition activateById :: "string \<Rightarrow> shell \<Rightarrow> shell" where
  "activateById i sh = sh\<lparr>activations := activations sh @ [i]\<rparr>"

definition handler :: "area \<Rightarrow> shell \<Rightarrow> side_bar" where
  "handler a sh = (case a of Left \<Rightarrow> leftHandler sh | Right \<Rightarrow> rightHandler sh)"

text \<open>Modelled from the spec: \<^verbatim>\<open>notebookShell.widgets(area)\<close>, the panels of a side in order.\<close>

definition shell_widgets :: "shell \<Rightarrow> area \<Rightarrow> widget list" where
  "shell_widgets sh a = panels (handler a sh)"

text \<open>
  The state of a side as the specification names it: visible iff the side is not collapsed
  and has a current widget.
\<close>

datatype side_view = Collapsed | ExpandedWithWidget string

definition view_of :: "side_bar \<Rightarrow> side_view" where
  "view_of sb =
     (if collapsed sb then Collapsed
      else (case currentWidgetId sb of None \<Rightarrow> Collapsed | Some i \<Rightarrow> ExpandedWithWidget i))"

section \<open>The sidebar visibility plugin\<close>

text \<open>The arguments of the command \<^verbatim>\<open>application:toggle-panel\<close>: \<^verbatim>\<open>side\<close>, \<^verbatim>\<open>title\<close>, \<^verbatim>\<open>id\<close>.\<close>

record toggle_args =
  arg_side :: string
  arg_title :: string
  arg_id :: string

text \<open>The \<^verbatim>\<open>execute\<close> function of the toggle command, with its two \<^verbatim>\<open>case\<close> branches.\<close>

definition togglePanel_execute :: "toggle_args \<Rightarrow> shell \<Rightarrow> shell" where
  "togglePanel_execute args sh =
     (if arg_side args = ''left'' then
        (if leftCollapsed sh then expandLeft (arg_id args) sh
         else if currentWidgetId (leftHandler sh) \<noteq> Some (arg_id args)
           then expandLeft (arg_id args) sh
         else
           (let sh1 = collapseLeft sh
            in case currentWidget sh1 of None \<Rightarrow> sh1 | Some w \<Rightarrow> activateById w sh1))
      else if arg_side args = ''right'' then
        (if rightCollapsed sh then expandRight (arg_id args) sh
         else if currentWidgetId (rightHandler sh) \<noteq> Some (arg_id args)
           then expandRight (arg_id args) sh
         else
           (let sh1 = collapseRight sh
            in case currentWidget sh1 of None \<Rightarrow> sh1 | Some w \<Rightarrow> activateById w sh1))
      else sh)"

text \<open>
  An item of the View menu: the handle \<^verbatim>\<open>viewMenu.addItem\<close> returned for it, the label of
  its submenu and the items of the submenu.  Disposing a handle removes its item; disposing
  it again does nothing.
\<close>

record view_entry =
  entry_handle :: nat
  entry_label :: string
  entry_items :: "toggle_args list"

text \<open>An entry of the sidebar palette, keyed by the widget id and the side.\<close>

record palette_entry =
  entry_widgetId :: string
  entry_area :: area

text \<open>
  The variables of \<^verbatim>\<open>activate\<close>: \<^verbatim>\<open>sideBarMenu\<close> (line 610) and \<^verbatim>\<open>sideBarPalette\<close> (line 615,
  \<open>None\<close> for \<^verbatim>\<open>null\<close>), with the contents of the View menu and of the command palette.
  A \<^verbatim>\<open>SideBarPalette\<close> object is the list of its entries.
\<close>

record sidebar =
  sideBarMenu :: "area \<Rightarrow> nat option"
  viewMenu :: "view_entry list"
  nextHandle :: nat
  sideBarPalette :: "palette_entry list option"
  commandPalette :: "palette_entry list"

definition sidebar_activate :: sidebar where
  "sidebar_activate =
     \<lparr>sideBarMenu = (\<lambda>a. None), viewMenu = [], nextHandle = 0, sideBarPalette = None,
      commandPalette = []\<rparr>"

text \<open>\<^verbatim>\<open>sideBarMenu[area]?.dispose()\<close>\<close>

definition dispose_handle :: "nat option \<Rightarrow> sidebar \<Rightarrow> sidebar" where
  "dispose_handle h st =
     (case h of
        None \<Rightarrow> st
      | Some n \<Rightarrow> st\<lparr>viewMenu := filter (\<lambda>e. entry_handle e \<noteq> n) (viewMenu st)\<rparr>)"

text \<open>\<^verbatim>\<open>menu.viewMenu.addItem({ type: 'submenu', submenu })\<close> with the handle it returns.\<close>

definition viewMenu_addItem :: "string \<Rightarrow> toggle_args list \<Rightarrow> sidebar \<Rightarrow> nat \<times> sidebar" where
  "viewMenu_addItem entryLabel items st =
     (nextHandle st,
      st\<lparr>viewMenu := viewMenu st @
             [\<lparr>entry_handle = nextHandle st, entry_label = entryLabel, entry_items = items\<rparr>],
         nextHandle := Suc (nextHandle st)\<rparr>)"

text \<open>
  \<^verbatim>\<open>updateMenu\<close>.  The \<^verbatim>\<open>for\<close> loop is the \<open>foldl\<close>: it adds one item per widget to the new
  menu and sets \<^verbatim>\<open>menuToAdd\<close>.  \<open>menu\<close> is false when the optional main menu is \<^verbatim>\<open>null\<close>.
\<close>

definition updateMenu :: "bool \<Rightarrow> shell \<Rightarrow> area \<Rightarrow> string \<Rightarrow> sidebar \<Rightarrow> sidebar" where
  "updateMenu menu sh a entryLabel st =
     (if \<not> menu then st
      else
        (let st1 = dispose_handle (sideBarMenu st a) st;
             loop = foldl
                      (\<lambda>acc w.
                         (fst acc @
                            [\<lparr>arg_side = area_name a, arg_title = ''Show '' @ widget_caption w,
                              arg_id = widget_id w\<rparr>],
                          True))
                      ([], False) (shell_widgets sh a)
         in if snd loop then
              (case viewMenu_addItem entryLabel (fst loop) st1 of
                 (h, st2) \<Rightarrow> st2\<lparr>sideBarMenu := (sideBarMenu st2)(a := Some h)\<rparr>)
            else st1))"

text \<open>\<^verbatim>\<open>getSidebarLabel\<close>; the translation \<^verbatim>\<open>trans.__\<close> is taken as the identity.\<close>

definition getSidebarLabel :: "area \<Rightarrow> string" where
  "getSidebarLabel a = (if a = Left then ''Left Sidebar'' else ''Right Sidebar'')"

text \<open>
  Modelled from the spec: the class \<^verbatim>\<open>SideBarPalette\<close> of \<^verbatim>\<open>./sidebarpalette\<close> (not among the
  sources).  Adding a panel appends an entry for the widget and the side; removing a panel
  removes the entry that matches both the widget id and the side.  The first component is
  the object's own list of entries, the second the contents of the command palette it
  writes to.
\<close>

definition SideBarPalette_addItem ::
  "widget \<Rightarrow> area \<Rightarrow> palette_entry list \<times> palette_entry list \<Rightarrow>
     palette_entry list \<times> palette_entry list"
where
  "SideBarPalette_addItem w a pc =
     (fst pc @ [\<lparr>entry_widgetId = widget_id w, entry_area = a\<rparr>],
      snd pc @ [\<lparr>entry_widgetId = widget_id w, entry_area = a\<rparr>])"

definition SideBarPalette_removeItem ::
  "widget \<Rightarrow> area \<Rightarrow> palette_entry list \<times> palette_entry list \<Rightarrow>
     palette_entry list \<times> palette_entry list"
where
  "SideBarPalette_removeItem w a pc =
     (filter (\<lambda>e. \<not> (entry_widgetId e = widget_id w \<and> entry_area e = a)) (fst pc),
      filter (\<lambda>e. \<not> (entry_widgetId e = widget_id w \<and> entry_area e = a)) (snd pc))"

datatype action = Add | Remove

text \<open>
  \<^verbatim>\<open>sidebarUpdated\<close>; \<open>a\<close> is \<^verbatim>\<open>sidebar.area\<close>.  The palette is updated through the variable
  \<^verbatim>\<open>sideBarPalette\<close> of line 615.
\<close>

definition sidebarUpdated :: "bool \<Rightarrow> shell \<Rightarrow> area \<Rightarrow> widget \<Rightarrow> action \<Rightarrow> sidebar \<Rightarrow> sidebar" where
  "sidebarUpdated menu sh a w act st =
     (let st1 = (if menu then updateMenu menu sh a (getSidebarLabel a) st else st)
      in case sideBarPalette st1 of
           None \<Rightarrow> st1
         | Some sp \<Rightarrow>
             (case (if act = Add then SideBarPalette_addItem w a (sp, commandPalette st1)
                    else SideBarPalette_removeItem w a (sp, commandPalette st1)) of
                (sp', cp') \<Rightarrow> st1\<lparr>sideBarPalette := Some sp', commandPalette := cp'\<rparr>))"

text \<open>
  The callback of \<^verbatim>\<open>app.restored\<close> up to the point where it connects the four signals.
  \<open>palette\<close> is false when the optional command palette is \<^verbatim>\<open>null\<close>.  The palette object
  is bound by \<^verbatim>\<open>const sideBarPalette = new SideBarPalette(...)\<close> inside the \<^verbatim>\<open>if\<close> block
  (line 799): a declaration local to that block, so the entries reach the command palette
  and the variable of line 615 is not assigned.
\<close>

definition restored :: "bool \<Rightarrow> bool \<Rightarrow> shell \<Rightarrow> sidebar \<Rightarrow> sidebar" where
  "restored menu palette sh st =
     (let st1 = (if menu
                 then updateMenu menu sh Right (getSidebarLabel Right)
                        (updateMenu menu sh Left (getSidebarLabel Left) st)
                 else st)
      in if palette then
           (let block_local =
                  foldl (\<lambda>pc w. SideBarPalette_addItem w Right pc)
                    (foldl (\<lambda>pc w. SideBarPalette_addItem w Left pc)
                       ([], commandPalette st1) (panels (leftHandler sh)))
                    (panels (rightHandler sh))
            in st1\<lparr>commandPalette := snd block_local\<rparr>)
         else st1)"

text \<open>
  Modelled from the spec: the panel host.  It changes the contents of a side (a widget is
  inserted at the position its rank gives, or removed) and then emits the notification,
  which carries the side and the widget.
\<close>

datatype panel_event = WidgetAdded area widget nat | WidgetRemoved area widget

definition set_panels :: "area \<Rightarrow> widget list \<Rightarrow> shell \<Rightarrow> shell" where
  "set_panels a ws sh =
     (case a of
        Left \<Rightarrow> sh\<lparr>leftHandler := (leftHandler sh)\<lparr>panels := ws\<rparr>\<rparr>
      | Right \<Rightarrow> sh\<lparr>rightHandler := (rightHandler sh)\<lparr>panels := ws\<rparr>\<rparr>)"

definition host_change :: "panel_event \<Rightarrow> shell \<Rightarrow> shell" where
  "host_change ev sh =
     (case ev of
        WidgetAdded a w i \<Rightarrow>
          set_panels a (take i (shell_widgets sh a) @ [w] @ drop i (shell_widgets sh a)) sh
      | WidgetRemoved a w \<Rightarrow> set_panels a (remove1 w (shell_widgets sh a)) sh)"

text \<open>
  The four connections made at the end of the \<^verbatim>\<open>app.restored\<close> callback: a notification of
  either handler calls \<^verbatim>\<open>sidebarUpdated\<close> with \<^verbatim>\<open>'add'\<close> or \<^verbatim>\<open>'remove'\<close>.
\<close>

definition panel_step :: "bool \<Rightarrow> shell \<times> sidebar \<Rightarrow> panel_event \<Rightarrow> shell \<times> sidebar" where
  "panel_step menu s ev =
     (let sh = host_change ev (fst s)
      in (sh,
          case ev of
            WidgetAdded a w i \<Rightarrow> sidebarUpdated menu sh a w Add (snd s)
          | WidgetRemoved a w \<Rightarrow> sidebarUpdated menu sh a w Remove (snd s)))"

definition sidebar_run :: "bool \<Rightarrow> bool \<Rightarrow> shell \<Rightarrow> panel_event list \<Rightarrow> shell \<times> sidebar" where
  "sidebar_run menu palette sh evs =
     foldl (panel_step menu) (sh, restored menu palette sh sidebar_activate) evs"

text \<open>
  For the statements: the submenu item the specification asks for a panel, and the entries
  of the View menu that belong to a side.
\<close>

definition menu_item :: "area \<Rightarrow> widget \<Rightarrow> toggle_args" where
  "menu_item a w =
     \<lparr>arg_side = area_name a, arg_title = ''Show '' @ widget_caption w, arg_id = widget_id w\<rparr>"

definition side_entries :: "area \<Rightarrow> sidebar \<Rightarrow> view_entry list" where
  "side_entries a st = filter (\<lambda>e. entry_label e = getSidebarLabel a) (viewMenu st)"

text \<open>The arguments with which the toggle command is executed for a widget of a side.\<close>

definition toggle_for :: "area \<Rightarrow> string \<Rightarrow> widget \<Rightarrow> toggle_args" where
  "toggle_for a ttl w = \<lparr>arg_side = area_name a, arg_title = ttl, arg_id = widget_id w\<rparr>"

section \<open>The invariant of the View menu\<close>

text \<open>
  With respect to the panels \<open>ws\<close> of the two sides: a side without panels has no entry in
  the View menu; a side with panels has exactly one, which lists its panels in order and
  whose handle is the one kept in \<^verbatim>\<open>sideBarMenu\<close>.  Handles kept in \<^verbatim>\<open>sideBarMenu\<close> were
  issued before, and the two sides never keep the same handle.
\<close>

definition side_ok :: "(area \<Rightarrow> widget list) \<Rightarrow> sidebar \<Rightarrow> area \<Rightarrow> bool" where
  "side_ok ws st a =
     (if ws a = [] then side_entries a st = []
      else (\<exists>h. sideBarMenu st a = Some h \<and>
              side_entries a st =
                [\<lparr>entry_handle = h, entry_label = getSidebarLabel a,
                  entry_items = map (menu_item a) (ws a)\<rparr>]))"

definition menu_inv :: "(area \<Rightarrow> widget list) \<Rightarrow> sidebar \<Rightarrow> bool" where
  "menu_inv ws st =
     (side_ok ws st Left \<and> side_ok ws st Right \<and>
      (\<forall>a h. sideBarMenu st a = Some h \<longrightarrow> h < nextHandle st) \<and>
      (\<forall>h. sideBarMenu st Left = Some h \<longrightarrow> sideBarMenu st Right \<noteq> Some h))"

section \<open>Sample inputs\<close>

text \<open>
  A query parser on the query strings of the scenarios: the one with the browser path, the
  one with a malformed escape, on which the library's parser throws, and those without a
  \<^verbatim>\<open>file-browser-path\<close>.
\<close>

definition data_query :: query_parser where
  "data_query s =
     (if s = ''?file-browser-path=/data'' then Some [''file-browser-path'' \<mapsto> ''/data'']
      else if s = ''?file-browser-path=%'' then None
      else Some Map.empty)"

definition malformed_location :: location where
  "malformed_location = \<lparr>path = ''/tree'', search = Some ''?file-browser-path=%''\<rparr>"

definition stored_config :: page_config where
  "stored_config = [''treePath'' \<mapsto> ''notebooks/a.ipynb'']"

definition tree_location :: location where
  "tree_location = \<lparr>path = ''/tree'', search = Some ''?file-browser-path=/data''\<rparr>"

definition recorded_a :: browser_state where
  "recorded_a = \<lparr>pageConfig = [''treePath'' \<mapsto> ''a''], navigations = [], configWrites = []\<rparr>"

definition nonexistent_location :: location where
  "nonexistent_location = \<lparr>path = ''/nonexistent'', search = Some []\<rparr>"

definition notebook_location :: location where
  "notebook_location = \<lparr>path = ''/notebooks/a.ipynb'', search = Some []\<rparr>"

definition files_widget :: widget where
  "files_widget = \<lparr>widget_id = ''filebrowser'', widget_caption = ''Files''\<rparr>"

definition empty_side :: side_bar where
  "empty_side = \<lparr>collapsed = True, currentWidgetId = None, panels = []\<rparr>"

definition empty_shell :: shell where
  "empty_shell =
     \<lparr>leftHandler = empty_side, rightHandler = empty_side, currentWidget = Some ''notebook'',
      activations = []\<rparr>"

definition one_panel_shell :: shell where
  "one_panel_shell =
     \<lparr>leftHandler = \<lparr>collapsed = True, currentWidgetId = None, panels = [files_widget]\<rparr>,
      rightHandler = empty_side, currentWidget = Some ''notebook'', activations = []\<rparr>"

section \<open>The tree resolver resolves once\<close>

lemma tree_deliver_disposed: "isDisposed t \<Longrightarrow> tree_deliver q cfg t ev = t"
  by (cases ev) (simp_all add: tree_deliver_def resolveTree_execute_def listener_def)

lemma tree_fold_disposed: "isDisposed t \<Longrightarrow> foldl (tree_deliver q cfg) t evs = t"
  by (induction evs) (simp_all add: tree_deliver_disposed)

lemma tree_first_event:
  "tree_deliver q cfg tree_activate ev =
     (case condition_outcome q cfg ev of None \<Rightarrow> tree_activate | Some v \<Rightarrow> resolved_with v)"
  by (cases ev)
     (simp_all add: tree_deliver_def resolveTree_execute_def listener_def tree_activate_def
        set_dispose_def delegate_resolve_def condition_outcome_def or_empty_def getOption_def
        resolved_with_def Let_def split: option.splits)

lemma tree_fold_first:
  "foldl (tree_deliver q cfg) tree_activate evs =
     (case first_outcome q cfg evs of None \<Rightarrow> tree_activate | Some v \<Rightarrow> resolved_with v)"
proof (induction evs)
  case Nil
  show ?case by simp
next
  case (Cons ev evs)
  show ?case
  proof (cases "condition_outcome q cfg ev")
    case None
    then show ?thesis using Cons by (simp add: tree_first_event)
  next
    case (Some v)
    have "isDisposed (resolved_with v)" by (simp add: resolved_with_def)
    then show ?thesis
      using Some by (simp add: tree_first_event tree_fold_disposed)
  qed
qed

text \<open>
  C1, as stated, fails when the resolve-tree command runs first with a query string the
  parser throws on: nothing is resolved by that run, and the promise stays pending or is
  later fulfilled by the listener with \<^verbatim>\<open>null\<close>, which is not the outcome of the condition
  that came first.
\<close>

theorem tree_resolves_counterexample:
  "resolveCalls (tree_run data_query stored_config [ResolveTreeExecuted malformed_location]) = 0 \<and>
   delegate (tree_run data_query stored_config [ResolveTreeExecuted malformed_location]) = Pending \<and>
   delegate (tree_run data_query stored_config
               [ResolveTreeExecuted malformed_location, RoutedEmitted]) = Fulfilled None"
  unfolding tree_run_def tree_fold_first
  by (simp add: condition_outcome_def malformed_location_def data_query_def tree_activate_def
        resolved_with_def)

text \<open>
  C1, amended.  For every sequence of events that reaches the two entry points of the
  resolver after activation, \<^verbatim>\<open>delegate.resolve\<close> is called at most once and the members of
  the set are disposed at most once, at that same point.  A run of the resolve-tree command
  whose query string does not parse throws before the dispose and leaves the resolver as it
  was.  The promise is fulfilled, exactly once, as soon as the sequence holds an event that
  gives an outcome (a run of the command whose query parses, or the listener firing), and
  its value is the outcome of the first such event; with no such event it stays pending.
  Once the set is disposed every later event is ignored, because both entry points check
  \<^verbatim>\<open>isDisposed\<close> first.
\<close>

theorem tree_resolves_first_outcome:
  "tree_run q cfg evs =
     (case first_outcome q cfg evs of None \<Rightarrow> tree_activate | Some v \<Rightarrow> resolved_with v) \<and>
   resolveCalls (tree_run q cfg evs) \<le> 1 \<and>
   disposals (tree_run q cfg evs) = resolveCalls (tree_run q cfg evs) \<and>
   (isDisposed (tree_run q cfg evs) \<longrightarrow> tree_run q cfg (evs @ later) = tree_run q cfg evs)"
proof -
  have run: "tree_run q cfg evs =
      (case first_outcome q cfg evs of None \<Rightarrow> tree_activate | Some v \<Rightarrow> resolved_with v)"
    by (simp add: tree_run_def tree_fold_first)
  have ignore: "tree_run q cfg (evs @ later) = tree_run q cfg evs"
    if "isDisposed (tree_run q cfg evs)"
    using tree_fold_disposed [OF that [unfolded tree_run_def], of q cfg later]
    by (simp add: tree_run_def)
  show ?thesis
    using run ignore
    by (auto simp: tree_activate_def resolved_with_def split: option.splits)
qed

theorem tree_resolves_first_outcome_witness:
  "isDisposed (tree_run data_query stored_config
                 [ResolveTreeExecuted malformed_location, ResolveTreeExecuted tree_location]) \<and>
   tree_run data_query stored_config
     ([ResolveTreeExecuted malformed_location, ResolveTreeExecuted tree_location] @
      [RoutedEmitted]) =
     resolved_with (Some \<lparr>paths_browser = ''/data'', paths_file = ''notebooks/a.ipynb''\<rparr>)"
proof -
  have r: "tree_run data_query stored_config
             [ResolveTreeExecuted malformed_location, ResolveTreeExecuted tree_location] =
           resolved_with (Some \<lparr>paths_browser = ''/data'', paths_file = ''notebooks/a.ipynb''\<rparr>)"
    unfolding tree_run_def tree_fold_first
    by (simp add: condition_outcome_def malformed_location_def tree_location_def
          data_query_def stored_config_def)
  have d: "isDisposed (tree_run data_query stored_config
             [ResolveTreeExecuted malformed_location, ResolveTreeExecuted tree_location])"
    by (simp add: r resolved_with_def)
  show ?thesis
    using tree_resolves_first_outcome
            [of data_query stored_config
               "[ResolveTreeExecuted malformed_location, ResolveTreeExecuted tree_location]"
               "[RoutedEmitted]"]
          d r
    by simp
qed

section \<open>The scenario of the resolve-tree command\<close>

text \<open>
  C5.  When the resolve-tree command is the first to run, with the path \<^verbatim>\<open>/tree\<close> and the
  query \<^verbatim>\<open>file-browser-path=/data\<close>, and the page configuration holds the tree path
  \<^verbatim>\<open>notebooks/a.ipynb\<close>, the promise fulfills with the browser path \<^verbatim>\<open>/data\<close> and the
  file \<^verbatim>\<open>notebooks/a.ipynb\<close>; when the query has no \<^verbatim>\<open>file-browser-path\<close> key the browser
  component is the empty string.
\<close>

theorem resolveTree_scenario:
  "cfg ''treePath'' = Some ''notebooks/a.ipynb'' \<Longrightarrow>
     (q ''?file-browser-path=/data'' = Some query \<and>
      query ''file-browser-path'' = Some ''/data'' \<longrightarrow>
        delegate (resolveTree_execute q cfg
                    \<lparr>path = ''/tree'', search = Some ''?file-browser-path=/data''\<rparr> tree_activate) =
          Fulfilled (Some \<lparr>paths_browser = ''/data'', paths_file = ''notebooks/a.ipynb''\<rparr>)) \<and>
     (q (case search args of None \<Rightarrow> [] | Some s \<Rightarrow> s) = Some query' \<and>
      query' ''file-browser-path'' = None \<longrightarrow>
        delegate (resolveTree_execute q cfg args tree_activate) =
          Fulfilled (Some \<lparr>paths_browser = [], paths_file = ''notebooks/a.ipynb''\<rparr>))"
  by (simp add: resolveTree_execute_def tree_activate_def set_dispose_def delegate_resolve_def
        or_empty_def getOption_def Let_def)

theorem resolveTree_scenario_witness:
  "stored_config ''treePath'' = Some ''notebooks/a.ipynb'' \<and>
   data_query ''?file-browser-path=/data'' = Some [''file-browser-path'' \<mapsto> ''/data''] \<and>
   [''file-browser-path'' \<mapsto> ''/data''] ''file-browser-path'' = Some ''/data'' \<and>
   delegate (resolveTree_execute data_query stored_config
               \<lparr>path = ''/tree'', search = Some ''?file-browser-path=/data''\<rparr> tree_activate) =
     Fulfilled (Some \<lparr>paths_browser = ''/data'', paths_file = ''notebooks/a.ipynb''\<rparr>) \<and>
   data_query (case search \<lparr>path = ''/tree'', search = None\<rparr> of None \<Rightarrow> [] | Some s \<Rightarrow> s) =
     Some Map.empty \<and>
   delegate (resolveTree_execute data_query stored_config
               \<lparr>path = ''/tree'', search = None\<rparr> tree_activate) =
     Fulfilled (Some \<lparr>paths_browser = [], paths_file = ''notebooks/a.ipynb''\<rparr>)"
  using resolveTree_scenario
          [of stored_config data_query "[''file-browser-path'' \<mapsto> ''/data'']"
              "\<lparr>path = ''/tree'', search = None\<rparr>" Map.empty]
  by (simp add: data_query_def stored_config_def)

section \<open>The tree path updater called twice\<close>

lemma updateTreePath_recorded:
  "getOption (pageConfig (updateTreePath j e p s)) ''treePath'' = p"
  by (simp add: updateTreePath_def PageConfig_setOption_def router_navigate_def setOption_def
        getOption_def Let_def)

lemma updateTreePath_same:
  "p = getOption (pageConfig s) ''treePath'' \<Longrightarrow> updateTreePath j e p s = s"
  by (simp add: updateTreePath_def)

text \<open>
  C6, as stated, fails when the path is the one already recorded: then the first call is a
  no-op too, and there is no history mutation and no write at all.
\<close>

theorem updateTreePath_twice_counterexample:
  "length (navigations (updateTreePath concat id ''a'' (updateTreePath concat id ''a''
      recorded_a))) \<noteq> 1 \<and>
   length (configWrites (updateTreePath concat id ''a'' (updateTreePath concat id ''a''
      recorded_a))) \<noteq> 1"
  by (simp add: updateTreePath_def getOption_def recorded_a_def)

text \<open>
  C6, amended.  Calling the updater twice in succession with the same path leaves the state
  the first call left: the second call is a no-op.  When the path differs from the tree
  path recorded before the first call, the two calls together make exactly one call of
  \<^verbatim>\<open>router.navigate\<close>, with \<^verbatim>\<open>skipRouting\<close>, and exactly one write of \<^verbatim>\<open>treePath\<close>; when it
  equals the recorded tree path they make none.
\<close>

theorem updateTreePath_twice:
  "updateTreePath j e p (updateTreePath j e p s) = updateTreePath j e p s \<and>
   (p \<noteq> getOption (pageConfig s) ''treePath'' \<longrightarrow>
      navigations (updateTreePath j e p (updateTreePath j e p s)) =
        navigations s @ [(j [baseUrl_or_root (pageConfig s), ''tree'', e p], True)] \<and>
      configWrites (updateTreePath j e p (updateTreePath j e p s)) =
        configWrites s @ [(''treePath'', p)]) \<and>
   (p = getOption (pageConfig s) ''treePath'' \<longrightarrow>
      updateTreePath j e p (updateTreePath j e p s) = s)"
proof -
  have twice: "updateTreePath j e p (updateTreePath j e p s) = updateTreePath j e p s"
    using updateTreePath_same [of p "updateTreePath j e p s" j e]
    by (simp add: updateTreePath_recorded)
  show ?thesis
    unfolding twice
    by (simp add: updateTreePath_def PageConfig_setOption_def router_navigate_def Let_def)
qed

theorem updateTreePath_twice_witness:
  "''b'' \<noteq> getOption (pageConfig recorded_a) ''treePath'' \<and>
   navigations (updateTreePath concat id ''b'' (updateTreePath concat id ''b'' recorded_a)) =
     [(''/treeb'', True)] \<and>
   configWrites (updateTreePath concat id ''b'' (updateTreePath concat id ''b'' recorded_a)) =
     [(''treePath'', ''b'')] \<and>
   ''a'' = getOption (pageConfig recorded_a) ''treePath'' \<and>
   updateTreePath concat id ''a'' (updateTreePath concat id ''a'' recorded_a) = recorded_a"
proof -
  have b: "''b'' \<noteq> getOption (pageConfig recorded_a) ''treePath''"
    by (simp add: recorded_a_def getOption_def)
  have a: "''a'' = getOption (pageConfig recorded_a) ''treePath''"
    by (simp add: recorded_a_def getOption_def)
  have "navigations (updateTreePath concat id ''b'' (updateTreePath concat id ''b'' recorded_a)) =
          navigations recorded_a @
            [(concat [baseUrl_or_root (pageConfig recorded_a), ''tree'', id ''b''], True)] \<and>
        configWrites (updateTreePath concat id ''b'' (updateTreePath concat id ''b'' recorded_a)) =
          configWrites recorded_a @ [(''treePath'', ''b'')]"
    using updateTreePath_twice [of concat id "''b''" recorded_a] b by blast
  moreover have "updateTreePath concat id ''a'' (updateTreePath concat id ''a'' recorded_a) =
      recorded_a"
    using updateTreePath_twice [of concat id "''a''" recorded_a] a by blast
  ultimately show ?thesis
    by (simp add: recorded_a_def baseUrl_or_root_def getOption_def)
qed

section \<open>The two route patterns\<close>

lemma exec_no_slash: "CHR ''/'' \<notin> set s \<Longrightarrow> regex_exec (Seq (Lit ''/'') r) s = None"
  by (induction s) (auto simp: match_at_def)

lemma match_at_treePattern: "match_at treePattern (CHR ''/'' # cs) \<noteq> None"
  by (simp add: match_at_def treePattern_def split: option.splits)

lemma exec_slash: "CHR ''/'' \<in> set s \<Longrightarrow> regex_exec treePattern s \<noteq> None"
proof (induction s)
  case Nil
  then show ?case by simp
next
  case (Cons c cs)
  show ?case
  proof (cases "c = CHR ''/''")
    case True
    then show ?thesis using match_at_treePattern [of cs] by (auto split: option.splits)
  next
    case False
    with Cons show ?thesis by (auto split: option.splits)
  qed
qed

lemma matches_treePattern: "matches s treePattern = (CHR ''/'' \<in> set s)"
proof (cases "CHR ''/'' \<in> set s")
  case True
  then show ?thesis
    using exec_slash [of s] by (auto simp: matches_def string_match_def split: option.splits)
next
  case False
  then show ?thesis
    using exec_no_slash [of s] by (simp add: matches_def string_match_def treePattern_def)
qed

lemma matches_TREE_PATTERN_slash: "matches s TREE_PATTERN \<Longrightarrow> CHR ''/'' \<in> set s"
  using exec_no_slash [of s]
  by (cases "CHR ''/'' \<in> set s") (simp_all add: matches_def string_match_def TREE_PATTERN_def)

text \<open>
  C4, as stated, fails: the path of a notebook matches the document-open pattern and the
  tree-resolution pattern.
\<close>

theorem patterns_overlap_counterexample:
  "matches ''/notebooks/a.ipynb'' TREE_PATTERN \<and> matches ''/notebooks/a.ipynb'' treePattern"
  by (simp add: matches_def string_match_def match_at_def TREE_PATTERN_def treePattern_def
        is_line_terminator_def)

text \<open>
  C4, amended.  The tree-resolution pattern \<^verbatim>\<open>/(/tree/.*)?\<close> is not anchored and its group is
  optional, so it matches exactly the paths that contain a \<^verbatim>\<open>/\<close>; every path that matches
  the document-open pattern \<^verbatim>\<open>/(notebooks|edit)/(.*)\<close> therefore matches the tree-resolution
  pattern too.
\<close>

theorem patterns_overlap:
  "matches s treePattern = (CHR ''/'' \<in> set s) \<and>
   (matches s TREE_PATTERN \<longrightarrow> matches s treePattern)"
  using matches_TREE_PATTERN_slash [of s] by (simp add: matches_treePattern)

theorem patterns_overlap_witness:
  "matches ''/edit/notes.txt'' TREE_PATTERN \<and> matches ''/edit/notes.txt'' treePattern"
  using patterns_overlap [of "''/edit/notes.txt''"]
  by (simp add: matches_def string_match_def match_at_def TREE_PATTERN_def
        is_line_terminator_def)

section \<open>Routing a path that is no document and no tree\<close>

lemma nonexistent_matches:
  "\<not> matches ''/nonexistent'' TREE_PATTERN" "matches ''/nonexistent'' treePattern"
  by (simp_all add: matches_def string_match_def match_at_def TREE_PATTERN_def treePattern_def
        is_line_terminator_def)

lemma route_tree_only:
  assumes "\<not> matches (path loc) TREE_PATTERN" "matches (path loc) treePattern"
  shows "router_match (registered_rules [opener_rule] [] tree_activate) loc = Some resolveTree"
    and "router_match (registered_rules [] [opener_rule] tree_activate) loc = Some resolveTree"
  using assms
  by (simp_all add: router_match_def registered_rules_def tree_activate_def opener_rule_def
        tree_rule_def)

lemma route_resolved:
  "router_match (registered_rules before after tree_activate) loc = Some resolveTree \<Longrightarrow>
   q (case search loc of None \<Rightarrow> [] | Some s \<Rightarrow> s) = Some query \<Longrightarrow>
   route q cfg before after loc tree_activate =
     resolved_with
       (Some \<lparr>paths_browser = or_empty (query ''file-browser-path''),
              paths_file = getOption cfg ''treePath''\<rparr>)"
  by (simp add: route_def resolveTree_execute_def tree_activate_def set_dispose_def
        delegate_resolve_def resolved_with_def Let_def)

text \<open>
  C3, as stated, fails: the path \<^verbatim>\<open>/nonexistent\<close> matches the tree-resolution pattern, the
  resolve-tree command runs, and the promise does not fulfill with \<^verbatim>\<open>null\<close>.
\<close>

theorem route_nonexistent_counterexample:
  "matches (path nonexistent_location) treePattern \<and>
   delegate (route data_query stored_config [opener_rule] [] nonexistent_location tree_activate)
     \<noteq> Fulfilled None"
proof -
  have p: "path nonexistent_location = ''/nonexistent''"
    by (simp add: nonexistent_location_def)
  have m: "\<not> matches (path nonexistent_location) TREE_PATTERN"
    "matches (path nonexistent_location) treePattern"
    using nonexistent_matches by (simp_all add: p)
  have q: "data_query (case search nonexistent_location of None \<Rightarrow> [] | Some s \<Rightarrow> s) =
      Some Map.empty"
    by (simp add: nonexistent_location_def data_query_def)
  show ?thesis
    using route_resolved
            [of "[opener_rule]" "[]" nonexistent_location data_query Map.empty stored_config]
          route_tree_only(1) [OF m] q m
    by (simp add: resolved_with_def)
qed

text \<open>
  C3, amended.  For a navigation whose path is \<^verbatim>\<open>/nonexistent\<close> the document-open pattern
  does not match and the tree-resolution pattern does, so the router dispatches to the
  resolve-tree command, whichever of the two rules was registered first.  When the query
  string parses, the promise fulfills with the \<^verbatim>\<open>file-browser-path\<close> of the query (empty
  when absent) and the stored tree path, not with \<^verbatim>\<open>null\<close>.
\<close>

theorem route_nonexistent:
  "path loc = ''/nonexistent'' \<Longrightarrow>
   q (case search loc of None \<Rightarrow> [] | Some s \<Rightarrow> s) = Some query \<Longrightarrow>
     matches (path loc) treePattern \<and> \<not> matches (path loc) TREE_PATTERN \<and>
     router_match (registered_rules [opener_rule] [] tree_activate) loc = Some resolveTree \<and>
     router_match (registered_rules [] [opener_rule] tree_activate) loc = Some resolveTree \<and>
     delegate (route q cfg [opener_rule] [] loc tree_activate) =
       Fulfilled
         (Some \<lparr>paths_browser = or_empty (query ''file-browser-path''),
                paths_file = getOption cfg ''treePath''\<rparr>) \<and>
     delegate (route q cfg [] [opener_rule] loc tree_activate) =
       Fulfilled
         (Some \<lparr>paths_browser = or_empty (query ''file-browser-path''),
                paths_file = getOption cfg ''treePath''\<rparr>)"
proof -
  assume p: "path loc = ''/nonexistent''"
    and q: "q (case search loc of None \<Rightarrow> [] | Some s \<Rightarrow> s) = Some query"
  have m: "\<not> matches (path loc) TREE_PATTERN" "matches (path loc) treePattern"
    using nonexistent_matches by (simp_all add: p)
  show ?thesis
    using m route_tree_only [OF m] q
      route_resolved [of "[opener_rule]" "[]" loc q query cfg]
      route_resolved [of "[]" "[opener_rule]" loc q query cfg]
    by (simp add: resolved_with_def)
qed

theorem route_nonexistent_witness:
  "path nonexistent_location = ''/nonexistent'' \<and>
   data_query (case search nonexistent_location of None \<Rightarrow> [] | Some s \<Rightarrow> s) = Some Map.empty \<and>
   router_match (registered_rules [opener_rule] [] tree_activate) nonexistent_location =
     Some resolveTree \<and>
   delegate (route data_query stored_config [opener_rule] [] nonexistent_location tree_activate) =
     Fulfilled (Some \<lparr>paths_browser = [], paths_file = ''notebooks/a.ipynb''\<rparr>)"
proof -
  have p: "path nonexistent_location = ''/nonexistent''"
    by (simp add: nonexistent_location_def)
  have q: "data_query (case search nonexistent_location of None \<Rightarrow> [] | Some s \<Rightarrow> s) =
      Some Map.empty"
    by (simp add: nonexistent_location_def data_query_def)
  show ?thesis
    using route_nonexistent [of nonexistent_location data_query Map.empty stored_config] p q
    by (simp add: stored_config_def or_empty_def getOption_def)
qed

section \<open>The promise of the opener command\<close>

text \<open>
  C9.  For every location whose path matches the document-open pattern with a non-empty
  second group, the promise that \<^verbatim>\<open>execute\<close> of \<^verbatim>\<open>router:tree\<close> returns never fulfills.  It
  stays pending, on the promise whose executor calls neither \<^verbatim>\<open>resolve\<close> nor \<^verbatim>\<open>reject\<close>,
  whenever the captured path decodes; when \<^verbatim>\<open>decodeURIComponent\<close> throws it rejects.
\<close>

theorem opener_never_fulfills:
  "match_group 2 (string_match (path loc) TREE_PATTERN) = Some p \<Longrightarrow> p \<noteq> [] \<Longrightarrow>
     snd (opener_execute d e sr loc) \<noteq> Fulfilled () \<and>
     snd (opener_execute d e sr loc) = (if d p = None then Rejected URIError else Pending)"
  by (auto simp: opener_execute_def opener_executor_def new_Promise_def await_then_return_def
        split: option.splits promise.splits)

theorem opener_never_fulfills_witness:
  "match_group 2 (string_match (path notebook_location) TREE_PATTERN) = Some ''a.ipynb'' \<and>
   ''a.ipynb'' \<noteq> [] \<and>
   snd (opener_execute Some id None notebook_location) = Pending"
  using opener_never_fulfills [of notebook_location "''a.ipynb''" Some id None]
  by (simp add: notebook_location_def match_group_def string_match_def match_at_def
        TREE_PATTERN_def is_line_terminator_def)

section \<open>The toggle cycle\<close>

lemma toggle_left:
  "togglePanel_execute \<lparr>arg_side = ''left'', arg_title = ttl, arg_id = i\<rparr> sh =
     (if collapsed (leftHandler sh) \<or> currentWidgetId (leftHandler sh) \<noteq> Some i
      then sh\<lparr>leftHandler := (leftHandler sh)\<lparr>collapsed := False, currentWidgetId := Some i\<rparr>\<rparr>
      else sh\<lparr>leftHandler := (leftHandler sh)\<lparr>collapsed := True\<rparr>,
              activations :=
                activations sh @ (case currentWidget sh of None \<Rightarrow> [] | Some d \<Rightarrow> [d])\<rparr>)"
  by (simp add: togglePanel_execute_def leftCollapsed_def expandLeft_def collapseLeft_def
        side_expand_def side_collapse_def activateById_def Let_def split: option.splits)

lemma toggle_right:
  "togglePanel_execute \<lparr>arg_side = ''right'', arg_title = ttl, arg_id = i\<rparr> sh =
     (if collapsed (rightHandler sh) \<or> currentWidgetId (rightHandler sh) \<noteq> Some i
      then sh\<lparr>rightHandler := (rightHandler sh)\<lparr>collapsed := False, currentWidgetId := Some i\<rparr>\<rparr>
      else sh\<lparr>rightHandler := (rightHandler sh)\<lparr>collapsed := True\<rparr>,
              activations :=
                activations sh @ (case currentWidget sh of None \<Rightarrow> [] | Some d \<Rightarrow> [d])\<rparr>)"
  by (simp add: togglePanel_execute_def rightCollapsed_def expandRight_def collapseRight_def
        side_expand_def side_collapse_def activateById_def Let_def split: option.splits)

text \<open>
  C7.  For a side that holds the one registered widget \<open>w\<close> and is in the state Collapsed,
  executing the toggle command for the side and \<open>w\<close> shows \<open>w\<close>; executing it again
  collapses the side and re-activates the active widget of the main area, if there is one;
  a third execution brings the side back to what the first produced, so the cycle has
  length two.
\<close>

theorem toggle_cycle:
  "shell_widgets sh a = [w] \<Longrightarrow> view_of (handler a sh) = Collapsed \<Longrightarrow>
     (let sh1 = togglePanel_execute (toggle_for a ttl w) sh;
          sh2 = togglePanel_execute (toggle_for a ttl w) sh1;
          sh3 = togglePanel_execute (toggle_for a ttl w) sh2
      in view_of (handler a sh1) = ExpandedWithWidget (widget_id w) \<and>
         activations sh1 = activations sh \<and>
         view_of (handler a sh2) = Collapsed \<and>
         activations sh2 =
           activations sh @ (case currentWidget sh of None \<Rightarrow> [] | Some d \<Rightarrow> [d]) \<and>
         view_of (handler a sh3) = ExpandedWithWidget (widget_id w) \<and>
         handler a sh3 = handler a sh1 \<and>
         activations sh3 = activations sh2)"
proof (cases a)
  case Left
  assume "shell_widgets sh a = [w]" "view_of (handler a sh) = Collapsed"
  with Left show ?thesis
    by (auto simp: toggle_for_def area_name_def toggle_left handler_def view_of_def Let_def
          split: if_splits option.splits)
next
  case Right
  assume "shell_widgets sh a = [w]" "view_of (handler a sh) = Collapsed"
  with Right show ?thesis
    by (auto simp: toggle_for_def area_name_def toggle_right handler_def view_of_def Let_def
          split: if_splits option.splits)
qed

theorem toggle_cycle_witness:
  "shell_widgets one_panel_shell Left = [files_widget] \<and>
   view_of (handler Left one_panel_shell) = Collapsed \<and>
   view_of (handler Left
     (togglePanel_execute (toggle_for Left ''Show Files'' files_widget) one_panel_shell)) =
     ExpandedWithWidget ''filebrowser'' \<and>
   activations
     (togglePanel_execute (toggle_for Left ''Show Files'' files_widget)
        (togglePanel_execute (toggle_for Left ''Show Files'' files_widget) one_panel_shell)) =
     [''notebook'']"
proof -
  have h: "shell_widgets one_panel_shell Left = [files_widget]"
    "view_of (handler Left one_panel_shell) = Collapsed"
    by (simp_all add: shell_widgets_def handler_def one_panel_shell_def view_of_def)
  show ?thesis
    using toggle_cycle [OF h, of "''Show Files''"] h
    by (simp add: Let_def files_widget_def one_panel_shell_def)
qed

section \<open>The View menu follows the panels\<close>

lemma loop_items:
  "foldl (\<lambda>acc w. (fst acc @ [f w], True)) (xs, b) ws = (xs @ map f ws, b \<or> ws \<noteq> [])"
  by (induction ws arbitrary: xs b) simp_all

lemma updateMenu_unfold:
  "updateMenu True sh a lbl st =
     (if shell_widgets sh a = [] then dispose_handle (sideBarMenu st a) st
      else (dispose_handle (sideBarMenu st a) st)
             \<lparr>viewMenu := viewMenu (dispose_handle (sideBarMenu st a) st) @
                 [\<lparr>entry_handle = nextHandle st, entry_label = lbl,
                   entry_items = map (menu_item a) (shell_widgets sh a)\<rparr>],
              nextHandle := Suc (nextHandle st),
              sideBarMenu := (sideBarMenu st)(a := Some (nextHandle st))\<rparr>)"
proof -
  have f: "(\<lambda>acc w. (fst acc @
                        [\<lparr>arg_side = area_name a, arg_title = ''Show '' @ widget_caption w,
                          arg_id = widget_id w\<rparr>], True)) =
           (\<lambda>acc w. (fst acc @ [menu_item a w], True))"
    by (simp add: menu_item_def)
  have d: "nextHandle (dispose_handle ho st) = nextHandle st"
    "sideBarMenu (dispose_handle ho st) = sideBarMenu st" for ho
    by (simp_all add: dispose_handle_def split: option.splits)
  show ?thesis
    unfolding updateMenu_def f loop_items
    by (simp add: viewMenu_addItem_def Let_def d)
qed

lemma labels_differ: "getSidebarLabel Left \<noteq> getSidebarLabel Right"
  by (simp add: getSidebarLabel_def)

lemma side_entries_dispose_own:
  assumes "side_ok ws st a"
  shows "side_entries a (dispose_handle (sideBarMenu st a) st) = []"
proof (cases "ws a = []")
  case True
  with assms have "side_entries a st = []" by (simp add: side_ok_def)
  then show ?thesis
    by (cases "sideBarMenu st a") (auto simp: side_entries_def dispose_handle_def filter_empty_conv)
next
  case False
  with assms obtain h where h: "sideBarMenu st a = Some h"
    and e: "side_entries a st = [\<lparr>entry_handle = h, entry_label = getSidebarLabel a,
                  entry_items = map (menu_item a) (ws a)\<rparr>]"
    by (auto simp: side_ok_def)
  have "side_entries a (dispose_handle (Some h) st) =
          filter (\<lambda>e. entry_handle e \<noteq> h) (side_entries a st)"
    by (simp add: side_entries_def dispose_handle_def conj_commute)
  then show ?thesis by (simp add: h e)
qed

lemma side_entries_dispose_other:
  assumes "side_ok ws st b" and "\<And>h. ho = Some h \<Longrightarrow> sideBarMenu st b \<noteq> Some h"
  shows "side_entries b (dispose_handle ho st) = side_entries b st"
proof (cases ho)
  case None
  then show ?thesis by (simp add: dispose_handle_def)
next
  case (Some h)
  have eq: "side_entries b (dispose_handle (Some h) st) =
          filter (\<lambda>e. entry_handle e \<noteq> h) (side_entries b st)"
    by (simp add: side_entries_def dispose_handle_def conj_commute)
  show ?thesis
  proof (cases "ws b = []")
    case True
    with assms(1) show ?thesis unfolding Some eq by (simp add: side_ok_def)
  next
    case False
    with assms(1) assms(2) [OF Some] show ?thesis unfolding Some eq
      by (auto simp: side_ok_def)
  qed
qed

lemma label_eq: "(getSidebarLabel a = getSidebarLabel b) = (a = b)"
  by (cases a; cases b) (simp_all add: getSidebarLabel_def)

lemma inv_side_ok: "menu_inv ws st \<Longrightarrow> side_ok ws st a"
  by (cases a) (simp_all add: menu_inv_def)

lemma inv_distinct:
  "menu_inv ws st \<Longrightarrow> a \<noteq> b \<Longrightarrow> sideBarMenu st a = Some h \<Longrightarrow> sideBarMenu st b \<noteq> Some h"
  by (cases a; cases b) (auto simp: menu_inv_def)

lemma inv_bound: "menu_inv ws st \<Longrightarrow> sideBarMenu st a = Some h \<Longrightarrow> h < nextHandle st"
  by (simp add: menu_inv_def)

lemma dispose_fields:
  "nextHandle (dispose_handle ho st) = nextHandle st"
  "sideBarMenu (dispose_handle ho st) = sideBarMenu st"
  by (simp_all add: dispose_handle_def split: option.splits)

lemma side_entries_attach:
  "side_entries c (st\<lparr>viewMenu := viewMenu st @ [e], nextHandle := n, sideBarMenu := m\<rparr>) =
     side_entries c st @ (if entry_label e = getSidebarLabel c then [e] else [])"
  by (simp add: side_entries_def)

lemma updateMenu_own:
  assumes "menu_inv ws st"
  shows "side_ok (ws(a := shell_widgets sh a)) (updateMenu True sh a (getSidebarLabel a) st) a"
  using side_entries_dispose_own [OF inv_side_ok [OF assms], of a]
  by (simp add: updateMenu_unfold side_ok_def side_entries_attach dispose_fields)

lemma updateMenu_other:
  assumes "menu_inv ws st" and "b \<noteq> a"
  shows "side_ok (ws(a := shell_widgets sh a)) (updateMenu True sh a (getSidebarLabel a) st) b"
proof -
  have keep: "side_entries b (dispose_handle (sideBarMenu st a) st) = side_entries b st"
    using side_entries_dispose_other [OF inv_side_ok [OF assms(1)], of "sideBarMenu st a" b]
      inv_distinct [OF assms(1), of a b] assms(2) by auto
  show ?thesis
    using inv_side_ok [OF assms(1), of b] assms(2)
    by (simp add: updateMenu_unfold side_ok_def side_entries_attach dispose_fields keep label_eq)
qed

lemma updateMenu_sideBarMenu:
  "sideBarMenu (updateMenu True sh a lbl st) c = Some h \<Longrightarrow>
     (c = a \<and> shell_widgets sh a \<noteq> [] \<and> h = nextHandle st) \<or> sideBarMenu st c = Some h"
  by (auto simp: updateMenu_unfold dispose_fields split: if_splits)

lemma updateMenu_nextHandle: "nextHandle st \<le> nextHandle (updateMenu True sh a lbl st)"
  by (simp add: updateMenu_unfold dispose_fields)

lemma updateMenu_nextHandle_fresh:
  "shell_widgets sh a \<noteq> [] \<Longrightarrow> nextHandle (updateMenu True sh a lbl st) = Suc (nextHandle st)"
  by (simp add: updateMenu_unfold dispose_fields)

lemma updateMenu_inv:
  assumes "menu_inv ws st"
  shows "menu_inv (ws(a := shell_widgets sh a)) (updateMenu True sh a (getSidebarLabel a) st)"
proof -
  let ?st = "updateMenu True sh a (getSidebarLabel a) st"
  let ?ws = "ws(a := shell_widgets sh a)"
  have ok: "side_ok ?ws ?st c" for c
    using updateMenu_own [OF assms] updateMenu_other [OF assms] by (cases "c = a") auto
  have bound: "h < nextHandle ?st" if "sideBarMenu ?st c = Some h" for c h
    using updateMenu_sideBarMenu [OF that] inv_bound [OF assms, of c h]
      updateMenu_nextHandle [of st sh a "getSidebarLabel a"]
      updateMenu_nextHandle_fresh [of sh a "getSidebarLabel a" st]
    by auto
  have distinct: "sideBarMenu ?st Right \<noteq> Some h" if "sideBarMenu ?st Left = Some h" for h
  proof
    assume r: "sideBarMenu ?st Right = Some h"
    from updateMenu_sideBarMenu [OF that] updateMenu_sideBarMenu [OF r]
    show False
      using inv_distinct [OF assms, of Left Right h] inv_bound [OF assms, of Left h]
        inv_bound [OF assms, of Right h]
      by auto
  qed
  show ?thesis
    unfolding menu_inv_def using ok bound distinct by blast
qed

lemma menu_inv_activate: "menu_inv (\<lambda>a. []) sidebar_activate"
  by (simp add: menu_inv_def side_ok_def side_entries_def sidebar_activate_def)

lemma menu_inv_palette:
  "menu_inv ws (st\<lparr>commandPalette := cp\<rparr>) = menu_inv ws st"
  "menu_inv ws (st\<lparr>sideBarPalette := sp, commandPalette := cp\<rparr>) = menu_inv ws st"
  "menu_inv ws (st\<lparr>sideBarPalette := sp\<rparr>) = menu_inv ws st"
  by (simp_all add: menu_inv_def side_ok_def side_entries_def)

lemma widgets_both:
  "(ws(Left := shell_widgets sh Left, Right := shell_widgets sh Right)) = shell_widgets sh"
proof
  fix a show "(ws(Left := shell_widgets sh Left, Right := shell_widgets sh Right)) a = shell_widgets sh a"
    by (cases a) simp_all
qed

lemma restored_inv: "menu_inv (shell_widgets sh) (restored True palette sh sidebar_activate)"
proof -
  have "menu_inv (shell_widgets sh)
          (updateMenu True sh Right (getSidebarLabel Right)
             (updateMenu True sh Left (getSidebarLabel Left) sidebar_activate))"
    using updateMenu_inv [OF updateMenu_inv [OF menu_inv_activate, of Left sh], of Right sh]
    by (simp add: widgets_both)
  then show ?thesis
    by (simp add: restored_def Let_def menu_inv_palette)
qed

lemma sidebarUpdated_inv:
  assumes "menu_inv ws st"
  shows "menu_inv (ws(a := shell_widgets sh a)) (sidebarUpdated True sh a w act st)"
  using updateMenu_inv [OF assms, of a sh]
  by (simp add: sidebarUpdated_def Let_def menu_inv_palette split: option.splits prod.splits)

lemma set_panels_widgets:
  "shell_widgets (set_panels a ws sh) = (shell_widgets sh)(a := ws)"
proof
  fix b show "shell_widgets (set_panels a ws sh) b = ((shell_widgets sh)(a := ws)) b"
    by (cases a; cases b) (simp_all add: shell_widgets_def set_panels_def handler_def)
qed

lemma panel_step_inv:
  assumes "menu_inv (shell_widgets (fst s)) (snd s)"
  shows "menu_inv (shell_widgets (fst (panel_step True s ev))) (snd (panel_step True s ev))"
proof (cases ev)
  case (WidgetAdded a w i)
  show ?thesis
    using sidebarUpdated_inv [OF assms, of a "host_change ev (fst s)" w Add]
    by (simp add: panel_step_def Let_def WidgetAdded host_change_def set_panels_widgets)
next
  case (WidgetRemoved a w)
  show ?thesis
    using sidebarUpdated_inv [OF assms, of a "host_change ev (fst s)" w Remove]
    by (simp add: panel_step_def Let_def WidgetRemoved host_change_def set_panels_widgets)
qed

lemma fold_inv:
  "menu_inv (shell_widgets (fst s)) (snd s) \<Longrightarrow>
     menu_inv (shell_widgets (fst (foldl (panel_step True) s evs)))
       (snd (foldl (panel_step True) s evs))"
  by (induction evs arbitrary: s) (simp_all add: panel_step_inv)

lemma run_inv:
  "menu_inv (shell_widgets (fst (sidebar_run True palette sh evs)))
     (snd (sidebar_run True palette sh evs))"
  unfolding sidebar_run_def using fold_inv [of "(sh, restored True palette sh sidebar_activate)" evs]
  by (simp add: restored_inv)

lemma run_snoc: "sidebar_run menu palette sh (evs @ [ev]) = panel_step menu (sidebar_run menu palette sh evs) ev"
  by (simp add: sidebar_run_def)

lemma no_menu_step: "viewMenu (snd (panel_step False s ev)) = viewMenu (snd s)"
  by (cases ev)
     (simp_all add: panel_step_def sidebarUpdated_def Let_def split: option.splits prod.splits)

lemma no_menu_fold: "viewMenu (snd (foldl (panel_step False) s evs)) = viewMenu (snd s)"
  by (induction evs arbitrary: s) (simp_all add: no_menu_step)

lemma no_menu_run: "viewMenu (snd (sidebar_run False palette sh evs)) = []"
  by (simp add: sidebar_run_def no_menu_fold restored_def sidebar_activate_def Let_def)

text \<open>
  C8.  With a main menu, after the restore and after every panel add or remove, the View
  menu holds for a side exactly what a rebuild from the panels now registered on that side
  gives: no entry when the side has no panel, and otherwise one submenu with one item per
  panel, in the order of the panels.  In particular, removing the last widget of a side
  leaves no entry of that side in the View menu.
\<close>

theorem menu_follows_panels:
  "map (\<lambda>e. (entry_label e, entry_items e))
     (side_entries a (snd (sidebar_run True palette sh evs))) =
     (if shell_widgets (fst (sidebar_run True palette sh evs)) a = [] then []
      else [(getSidebarLabel a,
             map (menu_item a) (shell_widgets (fst (sidebar_run True palette sh evs)) a))]) \<and>
   (shell_widgets (fst (sidebar_run True palette sh evs)) a = [w] \<longrightarrow>
      side_entries a (snd (sidebar_run True palette sh (evs @ [WidgetRemoved a w]))) = [])"
proof (intro conjI impI)
  show "map (\<lambda>e. (entry_label e, entry_items e))
     (side_entries a (snd (sidebar_run True palette sh evs))) =
     (if shell_widgets (fst (sidebar_run True palette sh evs)) a = [] then []
      else [(getSidebarLabel a,
             map (menu_item a) (shell_widgets (fst (sidebar_run True palette sh evs)) a))])"
    using inv_side_ok [OF run_inv, of palette sh evs a] by (auto simp: side_ok_def)
next
  assume one: "shell_widgets (fst (sidebar_run True palette sh evs)) a = [w]"
  have "shell_widgets (fst (sidebar_run True palette sh (evs @ [WidgetRemoved a w]))) a = []"
    by (simp add: run_snoc panel_step_def Let_def host_change_def set_panels_widgets one)
  then show "side_entries a (snd (sidebar_run True palette sh (evs @ [WidgetRemoved a w]))) = []"
    using inv_side_ok [OF run_inv, of palette sh "evs @ [WidgetRemoved a w]" a]
    by (simp add: side_ok_def)
qed

theorem menu_follows_panels_witness:
  "shell_widgets (fst (sidebar_run True True one_panel_shell [])) Left = [files_widget] \<and>
   side_entries Left
     (snd (sidebar_run True True one_panel_shell ([] @ [WidgetRemoved Left files_widget]))) = []"
proof -
  have h: "shell_widgets (fst (sidebar_run True True one_panel_shell [])) Left = [files_widget]"
    by (simp add: sidebar_run_def shell_widgets_def handler_def one_panel_shell_def)
  show ?thesis
    using menu_follows_panels [of Left True one_panel_shell "[]" files_widget] h by blast
qed

section \<open>At most one submenu per side\<close>

text \<open>
  C10.  After the restore and any sequence of panel add and remove events, with or without
  a main menu, the View menu holds at most one entry of each side.
\<close>

theorem one_submenu_per_side:
  "length (side_entries a (snd (sidebar_run menu palette sh evs))) \<le> 1"
proof (cases menu)
  case True
  then show ?thesis
    using inv_side_ok [OF run_inv, of palette sh evs a]
    by (auto simp: side_ok_def split: if_splits)
next
  case False
  then show ?thesis by (simp add: side_entries_def no_menu_run)
qed

section \<open>The sidebar palette after the restore\<close>

lemma palette_none_step: "sideBarPalette (snd s) = None \<Longrightarrow>
  sideBarPalette (snd (panel_step menu s ev)) = None \<and> commandPalette (snd (panel_step menu s ev)) = commandPalette (snd s)"
  by (cases ev)
     (simp_all add: panel_step_def sidebarUpdated_def Let_def updateMenu_def viewMenu_addItem_def
        dispose_handle_def split: option.splits prod.splits)

lemma palette_none_fold: "sideBarPalette (snd s) = None \<Longrightarrow>
  sideBarPalette (snd (foldl (panel_step menu) s evs)) = None \<and>
  commandPalette (snd (foldl (panel_step menu) s evs)) = commandPalette (snd s)"
  by (induction evs arbitrary: s) (simp_all add: palette_none_step)

lemma restored_palette_none: "sideBarPalette (restored menu palette sh sidebar_activate) = None"
  by (simp add: restored_def Let_def updateMenu_def viewMenu_addItem_def dispose_handle_def
        sidebar_activate_def split: option.splits prod.splits)

lemma run_palette:
  "commandPalette (snd (sidebar_run menu palette sh evs)) =
     commandPalette (restored menu palette sh sidebar_activate)"
  using palette_none_fold [of "(sh, restored menu palette sh sidebar_activate)" menu evs]
  by (simp add: sidebar_run_def restored_palette_none)


lemma updateMenu_commandPalette:
  "commandPalette (updateMenu menu sh a lbl st) = commandPalette st"
  by (simp add: updateMenu_def viewMenu_addItem_def dispose_handle_def Let_def
        split: option.splits prod.splits)

text \<open>
  C2 does not hold of the code.  With a command palette present, a panel added after the
  restore gains no entry, and a panel removed after the restore keeps the entry it got at
  the restore: \<^verbatim>\<open>sidebarUpdated\<close> reads the variable \<^verbatim>\<open>sideBarPalette\<close> of line 615, which is
  never assigned.
\<close>

theorem palette_not_updated:
  "commandPalette (snd (sidebar_run True True empty_shell [WidgetAdded Left files_widget 0])) = [] \<and>
   commandPalette (snd (sidebar_run True True one_panel_shell [WidgetRemoved Left files_widget])) =
     [\<lparr>entry_widgetId = ''filebrowser'', entry_area = Left\<rparr>]"
  unfolding run_palette
  by (simp add: restored_def Let_def empty_shell_def empty_side_def one_panel_shell_def
        files_widget_def SideBarPalette_addItem_def updateMenu_commandPalette
        sidebar_activate_def)

end
